theory Spec2Isabelle
  imports Complex_Main "HOL-Library.Multiset" "HOL-Library.Option_ord"
begin

section \<open>Text primitives of the script\<close>

text \<open>
  Cell and column text is modelled as ASCII text, one \<open>char\<close> per character.
  \<open>strip\<close> is \<^verbatim>\<open>str.strip()\<close>: it removes leading and trailing whitespace, which in the
  ASCII range is the characters 9 to 13, 28 to 31 and the space. \<open>lower\<close> is
  \<^verbatim>\<open>str.lower()\<close>, and \<open>remove_char c\<close> is \<^verbatim>\<open>s.replace(c, '')\<close> for a one-character \<open>c\<close>.
\<close>

definition isspace :: "char \<Rightarrow> bool" where
  "isspace c = ((of_char c :: nat) \<in> {9, 10, 11, 12, 13, 28, 29, 30, 31, 32})"

definition strip :: "string \<Rightarrow> string" where
  "strip s = rev (dropWhile isspace (rev (dropWhile isspace s)))"

definition lower_char :: "char \<Rightarrow> char" where
  "lower_char c =
     (if 65 \<le> (of_char c :: nat) \<and> (of_char c :: nat) \<le> 90
      then char_of (of_char c + (32 :: nat)) else c)"

definition lower :: "string \<Rightarrow> string" where
  "lower s = map lower_char s"

definition remove_char :: "char \<Rightarrow> string \<Rightarrow> string" where
  "remove_char c s = filter (\<lambda>x. x \<noteq> c) s"

section \<open>Floating-point primitives\<close>

text \<open>
  Amounts are Python floats. The script uses four operations on them, taken here as they
  are, without an arithmetic of their own:
  \<^item> \<open>float_of s\<close> is \<^verbatim>\<open>float(s)\<close>, \<open>None\<close> when it raises \<^verbatim>\<open>ValueError\<close>;
  \<^item> \<open>notna x\<close> is \<^verbatim>\<open>pd.notna(x)\<close>;
  \<^item> \<open>positive x\<close> is \<^verbatim>\<open>x > 0\<close>;
  \<^item> \<open>within_cent x y\<close> is \<^verbatim>\<open>abs(x - y) <= 0.01\<close>, evaluated in floating point.
\<close>

record 'f pyfloat =
  float_of :: "string \<Rightarrow> 'f option"
  notna :: "'f \<Rightarrow> bool"
  positive :: "'f \<Rightarrow> bool"
  within_cent :: "'f \<Rightarrow> 'f \<Rightarrow> bool"

section \<open>Batch records\<close>

text \<open>
  One row of \<^verbatim>\<open>full_df\<close>: the \<^verbatim>\<open>date\<close> column after \<^verbatim>\<open>strftime(DATE_FORMAT)\<close>, the
  \<^verbatim>\<open>name\<close> column, and the two float columns \<^verbatim>\<open>cost\<close> and \<^verbatim>\<open>payment\<close> (a missing value
  is a float for which \<open>notna\<close> is false). Both float columns exist in every row, since
  the script indexes them to build \<^verbatim>\<open>debts\<close> and \<^verbatim>\<open>payments\<close>; \<^verbatim>\<open>hasattr\<close> is therefore true.
\<close>

record 'f txn =
  t_date :: string
  t_name :: string
  cost :: 'f
  payment :: 'f

section \<open>Duplicate detection: \<^verbatim>\<open>row_exists\<close>\<close>

definition amount_text :: "string \<Rightarrow> string" where
  "amount_text cell = strip (remove_char CHR '','' (remove_char CHR ''$'' cell))"

text \<open>The first loop of \<^verbatim>\<open>row_exists\<close>, over the rows read from the sheet.\<close>

fun sheet_scan :: "'f pyfloat \<Rightarrow> string \<Rightarrow> 'f \<Rightarrow> string list list \<Rightarrow> bool" where
  "sheet_scan fl name_str_clean amount_val [] = False"
| "sheet_scan fl name_str_clean amount_val (row # rest) =
     (if 3 \<le> length row then
        (let existing_name = (if row ! 1 \<noteq> [] then lower (strip (row ! 1)) else [])
         in if existing_name \<noteq> name_str_clean
            then sheet_scan fl name_str_clean amount_val rest
            else (case float_of fl (amount_text (row ! 2)) of
                    None \<Rightarrow> sheet_scan fl name_str_clean amount_val rest
                  | Some existing_amount \<Rightarrow>
                      if within_cent fl existing_amount amount_val then True
                      else sheet_scan fl name_str_clean amount_val rest))
      else sheet_scan fl name_str_clean amount_val rest)"

text \<open>The amount a batch record carries: \<^verbatim>\<open>csv_amount\<close>, \<open>None\<close> as in the source.\<close>

definition csv_amount :: "'f pyfloat \<Rightarrow> 'f txn \<Rightarrow> 'f option" where
  "csv_amount fl csv_row =
     (if notna fl (cost csv_row) \<and> positive fl (cost csv_row) then Some (cost csv_row)
      else if notna fl (payment csv_row) \<and> positive fl (payment csv_row)
           then Some (payment csv_row)
      else None)"

text \<open>The second loop of \<^verbatim>\<open>row_exists\<close>, over the whole batch.\<close>

fun csv_scan :: "'f pyfloat \<Rightarrow> string \<Rightarrow> string \<Rightarrow> 'f \<Rightarrow> 'f txn list \<Rightarrow> bool" where
  "csv_scan fl date_str name_str_clean amount_val [] = False"
| "csv_scan fl date_str name_str_clean amount_val (csv_row # rest) =
     (let csv_name = lower (strip (t_name csv_row))
      in if csv_name \<noteq> name_str_clean
         then csv_scan fl date_str name_str_clean amount_val rest
         else (case csv_amount fl csv_row of
                 None \<Rightarrow> csv_scan fl date_str name_str_clean amount_val rest
               | Some a \<Rightarrow>
                   if within_cent fl a amount_val \<and> t_date csv_row \<noteq> date_str then True
                   else csv_scan fl date_str name_str_clean amount_val rest))"

definition row_exists ::
  "'f pyfloat \<Rightarrow> string \<Rightarrow> string \<Rightarrow> 'f \<Rightarrow> string list list \<Rightarrow> 'f txn list \<Rightarrow> bool" where
  "row_exists fl date_str name_str amount_val sheet_data csv_data =
     (let name_str_clean = lower (strip name_str)
      in if sheet_scan fl name_str_clean amount_val sheet_data then True
         else csv_scan fl date_str name_str_clean amount_val csv_data)"

section \<open>Log entries\<close>

text \<open>
  A log entry is its level and its message; a message is kept as the format it is
  printed with and the values it prints, not as the formatted text.
\<close>

datatype level = DEBUG | INFO | WARNING

datatype kind = Expense | Income

datatype 'f event =
    Queued kind string string 'f
  | SkippingDuplicate kind string string 'f
  | Merging kind nat
  | InvalidDateFormat string
  | Updating kind nat
  | AppliedCurrencyFormatting nat
  | Added kind nat
  | NoNewRows kind

type_synonym 'f log = "(level \<times> 'f event) list"

section \<open>Merging: \<^verbatim>\<open>merge_and_sort_data\<close>\<close>

text \<open>
  A naive \<^verbatim>\<open>datetime\<close> is its distance from \<^verbatim>\<open>datetime.min\<close>, so the order of the numbers is
  the order of the datetimes. The parser \<^verbatim>\<open>datetime.strptime(s, DATE_FORMAT)\<close> depends on
  the configured format and is a parameter \<open>strptime\<close> of the merge, \<open>None\<close> when it raises
  \<^verbatim>\<open>ValueError\<close>.
\<close>

type_synonym datetime = nat

definition datetime_min :: datetime where
  "datetime_min = 0"

text \<open>A cell written to the sheet is text or a float.\<close>

datatype 'f cell = Text string | Number 'f

text \<open>The dictionaries of \<^verbatim>\<open>all_rows\<close>.\<close>

record 'f row =
  date :: string
  name :: string
  amount :: "'f cell"
  category :: string
  notes' :: string
  date_obj :: "datetime option"

text \<open>The loop over \<^verbatim>\<open>existing_data\<close>.\<close>

fun existing_rows :: "string list list \<Rightarrow> 'f row list" where
  "existing_rows [] = []"
| "existing_rows (r # rest) =
     (if 1 \<le> length r \<and> r ! 0 \<noteq> [] then
        \<lparr>date = strip (r ! 0),
         name = (if 1 < length r then strip (r ! 1) else []),
         amount = Text (if 2 < length r then r ! 2 else []),
         category = (if 3 < length r then r ! 3 else []),
         notes' = (if 4 < length r then r ! 4 else []),
         date_obj = None\<rparr> # existing_rows rest
      else existing_rows rest)"

text \<open>The loop that parses the dates, with the warnings it logs.\<close>

fun parse_dates :: "(string \<Rightarrow> datetime option) \<Rightarrow> 'f row list \<Rightarrow> 'f row list \<times> 'f log" where
  "parse_dates strptime [] = ([], [])"
| "parse_dates strptime (r # rest) =
     (let (rows, warnings) = parse_dates strptime rest
      in case strptime (date r) of
           Some d \<Rightarrow> (r\<lparr>date_obj := Some d\<rparr> # rows, warnings)
         | None \<Rightarrow> (r\<lparr>date_obj := Some datetime_min\<rparr> # rows,
                     (WARNING, InvalidDateFormat (date r)) # warnings))"

definition to_list :: "'f row \<Rightarrow> 'f cell list" where
  "to_list r = [Text (date r), Text (name r), amount r, Text (category r), Text (notes' r)]"

text \<open>
  \<^verbatim>\<open>list.sort(key=...)\<close> is a stable sort; \<open>sort_key\<close> is the stable insertion sort, and a
  stable sort by a key has one result only.
\<close>

definition merge_and_sort_data ::
  "(string \<Rightarrow> datetime option) \<Rightarrow> string list list \<Rightarrow> 'f row list \<Rightarrow> 'f cell list list \<times> 'f log" where
  "merge_and_sort_data strptime existing_data new_rows =
     (let all_rows = existing_rows existing_data @ new_rows;
          (parsed, warnings) = parse_dates strptime all_rows;
          sorted_rows = sort_key date_obj parsed
      in (map to_list sorted_rows, warnings))"

section \<open>Processing one ledger\<close>

text \<open>
  The script processes the expense sheet and then the income sheet with the same code, up
  to the column read and the words of the log messages; \<open>k\<close> selects the copy.
\<close>

definition view :: "'f pyfloat \<Rightarrow> kind \<Rightarrow> 'f txn list \<Rightarrow> 'f txn list" where
  "view fl k full_df =
     (case k of
        Expense \<Rightarrow> filter (\<lambda>r. notna fl (cost r) \<and> positive fl (cost r)) full_df
      | Income \<Rightarrow> filter (\<lambda>r. notna fl (payment r) \<and> positive fl (payment r)) full_df)"

definition view_amount :: "kind \<Rightarrow> 'f txn \<Rightarrow> 'f" where
  "view_amount k r = (case k of Expense \<Rightarrow> cost r | Income \<Rightarrow> payment r)"

definition new_row :: "string \<Rightarrow> string \<Rightarrow> 'f \<Rightarrow> 'f row" where
  "new_row date_val name_val amount_val =
     \<lparr>date = date_val, name = name_val, amount = Number amount_val,
      category = [], notes' = [], date_obj = None\<rparr>"

text \<open>The loop that queues the records of a view that are not duplicates.\<close>

fun queue_new ::
  "'f pyfloat \<Rightarrow> kind \<Rightarrow> string list list \<Rightarrow> 'f txn list \<Rightarrow> 'f txn list \<Rightarrow> 'f row list \<times> 'f log" where
  "queue_new fl k data_rows full_df [] = ([], [])"
| "queue_new fl k data_rows full_df (r # rest) =
     (let date_val = t_date r; name_val = t_name r; amount_val = view_amount k r;
          (rows, lg) = queue_new fl k data_rows full_df rest
      in if \<not> row_exists fl date_val name_val amount_val data_rows full_df
         then (new_row date_val name_val amount_val # rows,
               (INFO, Queued k date_val name_val amount_val) # lg)
         else (rows, (INFO, SkippingDuplicate k date_val name_val amount_val) # lg))"

text \<open>The calls on the worksheet, in the order they are made.\<close>

datatype 'f sheet_op =
    BatchClear
  | Update "'f cell list list"
  | Format nat

definition process_view ::
  "'f pyfloat \<Rightarrow> (string \<Rightarrow> datetime option) \<Rightarrow> kind \<Rightarrow> string list list \<Rightarrow> 'f txn list
     \<Rightarrow> 'f sheet_op list \<times> 'f log" where
  "process_view fl strptime k data_rows full_df =
     (let (new_rows, lg) = queue_new fl k data_rows full_df (view fl k full_df)
      in if new_rows \<noteq> [] then
           (let (merged, warnings) = merge_and_sort_data strptime data_rows new_rows
            in (BatchClear #
                  (if merged \<noteq> [] then [Update merged, Format (length merged)] else []),
                lg @ [(INFO, Merging k (length new_rows))] @ warnings
                   @ [(INFO, Updating k (length merged))]
                   @ (if merged \<noteq> []
                      then [(DEBUG, AppliedCurrencyFormatting (length merged))] else [])
                   @ [(INFO, Added k (length new_rows))]))
         else ([], lg @ [(INFO, NoNewRows k)]))"

section \<open>The noise filter\<close>

text \<open>
  \<^verbatim>\<open>Series.str.contains(pat, case=False, na=False)\<close> is called without \<^verbatim>\<open>regex=False\<close>,
  so pandas compiles \<open>pat\<close> as a regular expression with \<^verbatim>\<open>re.IGNORECASE\<close> and searches
  each name for a match. The fragment of the pattern language modelled here is: an
  ordinary character, which matches itself up to case, and the dot, which matches any
  character but the newline. \<open>re_compile\<close> is \<open>None\<close> on a pattern with any other special
  character: such patterns lie outside the model.
\<close>

datatype re_atom = Lit char | AnyChar

definition re_special :: "char \<Rightarrow> bool" where
  "re_special c =
     (c \<in> set [CHR ''.'', CHR ''^'', CHR ''$'', CHR ''*'', CHR ''+'', CHR ''?'', CHR ''{'',
               CHR ''}'', CHR ''['', CHR '']'', CHR 0x5C, CHR ''|'', CHR ''('', CHR '')''])"

fun re_compile :: "string \<Rightarrow> re_atom list option" where
  "re_compile [] = Some []"
| "re_compile (c # cs) =
     (if c = CHR ''.'' then map_option (\<lambda>p. AnyChar # p) (re_compile cs)
      else if re_special c then None
      else map_option (\<lambda>p. Lit c # p) (re_compile cs))"

fun atom_matches :: "re_atom \<Rightarrow> char \<Rightarrow> bool" where
  "atom_matches (Lit c) x = (lower_char c = lower_char x)"
| "atom_matches AnyChar x = (x \<noteq> CHR 0x0A)"

fun match_here :: "re_atom list \<Rightarrow> string \<Rightarrow> bool" where
  "match_here [] s = True"
| "match_here (a # p) [] = False"
| "match_here (a # p) (x # xs) = (atom_matches a x \<and> match_here p xs)"

fun re_search :: "re_atom list \<Rightarrow> string \<Rightarrow> bool" where
  "re_search p [] = match_here p []"
| "re_search p (x # xs) = (match_here p (x # xs) \<or> re_search p xs)"

text \<open>The inner loop, over \<^verbatim>\<open>KEEP_ACCOUNT_NUMBERS\<close>; the series are lists of booleans.\<close>

fun keep_loop :: "string list \<Rightarrow> string list \<Rightarrow> bool list \<Rightarrow> bool list option" where
  "keep_loop [] names contains_keep_account = Some contains_keep_account"
| "keep_loop (keep_account # rest) names contains_keep_account =
     (case re_compile keep_account of
        None \<Rightarrow> None
      | Some p \<Rightarrow>
          keep_loop rest names
            (map2 (\<or>) contains_keep_account (map (re_search p) names)))"

text \<open>The outer loop, over \<^verbatim>\<open>FILTER_STRINGS\<close>.\<close>

fun filter_loop ::
  "string list \<Rightarrow> string list \<Rightarrow> string list \<Rightarrow> bool list \<Rightarrow> bool list option" where
  "filter_loop [] keeps names filter_condition = Some filter_condition"
| "filter_loop (filter_str # rest) keeps names filter_condition =
     (case re_compile filter_str of
        None \<Rightarrow> None
      | Some p \<Rightarrow>
          (let contains_filter = map (re_search p) names
           in case keep_loop keeps names (replicate (length names) False) of
                None \<Rightarrow> None
              | Some contains_keep_account \<Rightarrow>
                  filter_loop rest keeps names
                    (map2 (\<and>) filter_condition
                       (map2 (\<lambda>f k. \<not> (f \<and> \<not> k)) contains_filter contains_keep_account))))"

definition noise_filter :: "string list \<Rightarrow> string list \<Rightarrow> 'f txn list \<Rightarrow> 'f txn list option" where
  "noise_filter filter_strings keep_account_numbers full_df =
     (case filter_loop filter_strings keep_account_numbers (map t_name full_df)
             (replicate (length full_df) True) of
        None \<Rightarrow> None
      | Some filter_condition \<Rightarrow> Some (map fst (filter snd (zip full_df filter_condition))))"

section \<open>Notions of the specification\<close>

text \<open>Plain containment of text, up to case: some position of \<open>s\<close> starts with \<open>pat\<close>.\<close>

fun contains_plain :: "string \<Rightarrow> string \<Rightarrow> bool" where
  "contains_plain pat [] = (pat = [])"
| "contains_plain pat (x # xs) =
     (take (length pat) (lower (x # xs)) = lower pat \<or> contains_plain pat xs)"

text \<open>The date an output row is sorted by: the parsed first cell, the minimum when it does not parse.\<close>

definition parsed_date :: "(string \<Rightarrow> datetime option) \<Rightarrow> string \<Rightarrow> datetime" where
  "parsed_date strptime s = (case strptime s of Some d \<Rightarrow> d | None \<Rightarrow> datetime_min)"

definition out_date :: "(string \<Rightarrow> datetime option) \<Rightarrow> 'f cell list \<Rightarrow> datetime" where
  "out_date strptime cells =
     (case cells of Text s # _ \<Rightarrow> parsed_date strptime s | _ \<Rightarrow> datetime_min)"

text \<open>A sheet row cut or padded with empty cells to five cells.\<close>

definition five_cells :: "string list \<Rightarrow> string list" where
  "five_cells r = take 5 (r @ replicate 5 [])"

text \<open>A sheet row has a date when its first cell exists and is not empty.\<close>

definition has_date :: "string list \<Rightarrow> bool" where
  "has_date r = (r \<noteq> [] \<and> hd r \<noteq> [])"

text \<open>The five cells with the date and the name trimmed, as cells of the output.\<close>

definition normal_row :: "string list \<Rightarrow> 'f cell list" where
  "normal_row r =
     map Text (map strip (take 2 (five_cells r)) @ drop 2 (five_cells r))"

text \<open>The text of the first cell of an output row.\<close>

definition first_text :: "'f cell list \<Rightarrow> string" where
  "first_text cells = (case cells of Text s # _ \<Rightarrow> s | _ \<Rightarrow> [])"

text \<open>The key a row of \<^verbatim>\<open>all_rows\<close> is sorted by.\<close>

definition sort_date :: "(string \<Rightarrow> datetime option) \<Rightarrow> 'f row \<Rightarrow> datetime" where
  "sort_date P r = parsed_date P (date r)"

section \<open>Instances for the examples\<close>

text \<open>
  The floats of the examples are exact decimals; on the texts and values used there the
  operations below give what the floating-point ones give.
\<close>

definition example_floats :: "rat pyfloat" where
  "example_floats =
     \<lparr>float_of = (\<lambda>s. if s = ''4.50'' then Some (9 / 2)
                       else if s = ''50'' then Some 50
                       else if s = ''1200.00'' then Some 1200
                       else None),
      notna = (\<lambda>x. True),
      positive = (\<lambda>x. 0 < x),
      within_cent = (\<lambda>x y. \<bar>x - y\<bar> \<le> 1 / 100)\<rparr>"

text \<open>
  The parser of the examples is \<^verbatim>\<open>strptime(s, '%Y-%m-%d')\<close> on the dates used, counted in
  days from \<^verbatim>\<open>datetime.min\<close>; every other text of the examples fails to parse.
\<close>

definition example_strptime :: "string \<Rightarrow> datetime option" where
  "example_strptime s =
     (if s = ''0001-01-01'' then Some 0
      else if s = ''2024-01-05'' then Some 738889
      else if s = ''2024-02-01'' then Some 738916
      else if s = ''2024-03-01'' then Some 738945
      else if s = ''2024-03-02'' then Some 738946
      else None)"

definition coffee :: "rat txn" where
  "coffee = \<lparr>t_date = ''2024-01-05'', t_name = ''Coffee Shop'', cost = 9 / 2, payment = 0\<rparr>"

definition acme1 :: "rat txn" where
  "acme1 = \<lparr>t_date = ''2024-03-01'', t_name = ''ACME'', cost = 50, payment = 0\<rparr>"

definition acme2 :: "rat txn" where
  "acme2 = \<lparr>t_date = ''2024-03-02'', t_name = ''ACME'', cost = 50, payment = 0\<rparr>"

section \<open>Properties of the sheet scan\<close>

lemma sheet_scan_match:
  assumes "row \<in> set sheet_data" and "3 \<le> length row"
    and "lower (strip (row ! 1)) = n"
    and "float_of fl (amount_text (row ! 2)) = Some v"
    and "within_cent fl v amount_val"
  shows "sheet_scan fl n amount_val sheet_data"
  using assms
proof (induction sheet_data)
  case Nil
  then show ?case by simp
next
  case (Cons r rest)
  show ?case
  proof (cases "r = row")
    case True
    have "lower (strip []) = []" by (simp add: lower_def strip_def)
    with True Cons.prems show ?thesis by (auto simp: Let_def)
  next
    case False
    with Cons have "sheet_scan fl n amount_val rest" by simp
    then show ?thesis by (auto simp: Let_def split: option.splits)
  qed
qed


text \<open>
  C1. A sheet row with at least three cells whose name equals the candidate's after
  trimming and lowering, and whose amount cell, without \<open>$\<close> and commas, parses to a float
  within 0.01 of the candidate's amount, makes \<open>row_exists\<close> true, whatever the first cell
  of the row and whatever the candidate's date: neither occurs in the hypotheses.
\<close>

theorem ledger_match_ignores_dates:
  assumes "row \<in> set sheet_data" and "3 \<le> length row"
    and "lower (strip (row ! 1)) = lower (strip name_str)"
    and "float_of fl (amount_text (row ! 2)) = Some v"
    and "within_cent fl v amount_val"
  shows "row_exists fl date_str name_str amount_val sheet_data csv_data"
  using sheet_scan_match [OF assms] by (simp add: row_exists_def)

theorem ledger_match_ignores_dates_witness:
  "row_exists example_floats ''2023-12-31'' ''Coffee Shop'' (9 / 2)
     [[''2024-01-05'', '' coffee shop'', ''$4.50'', [], []]] []"
proof -
  let ?row = "[''2024-01-05'', '' coffee shop'', ''$4.50'', [], []]"
  have n: "lower (strip (?row ! 1)) = lower (strip ''Coffee Shop'')"
    by code_simp
  have a: "float_of example_floats (amount_text (?row ! 2)) = Some (9 / 2)"
    by (simp add: example_floats_def amount_text_def remove_char_def strip_def isspace_def)
  have w: "within_cent example_floats (9 / 2) (9 / 2)"
    by (simp add: example_floats_def)
  show ?thesis
    using ledger_match_ignores_dates [of ?row "[?row]", OF _ _ n a w] by simp
qed

section \<open>Properties of the batch scan\<close>

lemma csv_scan_iff:
  "csv_scan fl date_str n amount_val csv_data \<longleftrightarrow>
     (\<exists>r \<in> set csv_data. lower (strip (t_name r)) = n \<and>
        (\<exists>a. csv_amount fl r = Some a \<and> within_cent fl a amount_val) \<and>
        t_date r \<noteq> date_str)"
  by (induction csv_data) (auto simp: Let_def split: option.splits)

text \<open>
  C2. Apart from the sheet scan, \<open>row_exists\<close> is true exactly when some record of the
  batch has the candidate's name after trimming and lowering, carries a positive amount
  (its cost when that is present and positive, otherwise its payment when that is present
  and positive) within 0.01 of the candidate's amount, and has a date other than the
  candidate's. A batch all of whose records have the candidate's date is never flagged by
  this rule.
\<close>

theorem batch_rule_iff:
  "(row_exists fl date_str name_str amount_val [] csv_data \<longleftrightarrow>
      (\<exists>r \<in> set csv_data.
         lower (strip (t_name r)) = lower (strip name_str) \<and>
         (if notna fl (cost r) \<and> positive fl (cost r)
          then within_cent fl (cost r) amount_val
          else notna fl (payment r) \<and> positive fl (payment r) \<and>
               within_cent fl (payment r) amount_val) \<and>
         t_date r \<noteq> date_str)) \<and>
   ((\<forall>r \<in> set csv_data. t_date r = date_str) \<longrightarrow>
      \<not> row_exists fl date_str name_str amount_val [] csv_data) \<and>
   (row_exists fl date_str name_str amount_val sheet_data csv_data \<longleftrightarrow>
      row_exists fl date_str name_str amount_val sheet_data [] \<or>
      row_exists fl date_str name_str amount_val [] csv_data)"
  by (auto simp: row_exists_def csv_scan_iff csv_amount_def Let_def split: if_splits)

theorem batch_rule_iff_witness:
  "row_exists example_floats ''2024-03-02'' ''ACME'' 50 [] [acme1, acme2] \<and>
   \<not> row_exists example_floats ''2024-03-02'' ''ACME'' 50 [] [acme2]"
proof -
  have 1: "lower (strip (t_name acme1)) = lower (strip ''ACME'')"
    by (simp add: acme1_def)
  have 2: "t_date acme1 \<noteq> ''2024-03-02''" "t_date acme2 = ''2024-03-02''"
    by (simp_all add: acme1_def acme2_def)
  have 3: "notna example_floats (cost acme1)" "positive example_floats (cost acme1)"
    "within_cent example_floats (cost acme1) 50"
    by (simp_all add: acme1_def example_floats_def)
  show ?thesis
    using batch_rule_iff [of example_floats "''2024-03-02''" "''ACME''" 50 "[acme1, acme2]" "[]"]
      batch_rule_iff [of example_floats "''2024-03-02''" "''ACME''" 50 "[acme2]" "[]"]
      1 2 3
    by auto
qed

section \<open>Properties of the merge\<close>

lemma parse_dates_rows:
  "fst (parse_dates P rows) = map (\<lambda>r. r\<lparr>date_obj := Some (sort_date P r)\<rparr>) rows"
  by (induction rows) (auto simp: sort_date_def parsed_date_def split: prod.splits option.splits)

lemma parse_dates_log:
  "snd (parse_dates P rows) =
     map (\<lambda>r. (WARNING, InvalidDateFormat (date r))) (filter (\<lambda>r. P (date r) = None) rows)"
  by (induction rows) (auto split: prod.splits option.splits)

lemma insort_key_Some:
  "insort_key (\<lambda>r. Some (f r)) x xs = insort_key f x xs"
  by (induction xs) auto

lemma sort_key_Some:
  "sort_key (\<lambda>r. Some (f r)) xs = sort_key f xs"
  by (induction xs) (auto simp: insort_key_Some)

lemma insort_key_stamp:
  "insort_key date_obj (r\<lparr>date_obj := Some (f r)\<rparr>) (map (\<lambda>r. r\<lparr>date_obj := Some (f r)\<rparr>) xs)
     = map (\<lambda>r. r\<lparr>date_obj := Some (f r)\<rparr>) (insort_key f r xs)"
  by (induction xs) auto

lemma sort_key_stamp:
  "sort_key date_obj (map (\<lambda>r. r\<lparr>date_obj := Some (f r)\<rparr>) xs)
     = map (\<lambda>r. r\<lparr>date_obj := Some (f r)\<rparr>) (sort_key f xs)"
  by (induction xs) (auto simp: insort_key_stamp)

lemma to_list_stamp: "to_list (r\<lparr>date_obj := d\<rparr>) = to_list r"
  by (simp add: to_list_def)

lemma merge_rows:
  "fst (merge_and_sort_data P existing_data new_rows) =
     map to_list (sort_key (sort_date P) (existing_rows existing_data @ new_rows))"
proof -
  let ?all = "existing_rows existing_data @ new_rows"
  obtain parsed warnings where p: "parse_dates P ?all = (parsed, warnings)"
    by (cases "parse_dates P ?all")
  then have "parsed = map (\<lambda>r. r\<lparr>date_obj := Some (sort_date P r)\<rparr>) ?all"
    using parse_dates_rows [of P ?all] by simp
  then have "map to_list (sort_key date_obj parsed) = map to_list (sort_key (sort_date P) ?all)"
    by (simp only: sort_key_stamp) (simp add: to_list_stamp comp_def)
  with p show ?thesis
    by (simp add: merge_and_sort_data_def Let_def)
qed

lemma merge_log:
  "snd (merge_and_sort_data P existing_data new_rows) =
     map (\<lambda>r. (WARNING, InvalidDateFormat (date r)))
       (filter (\<lambda>r. P (date r) = None) (existing_rows existing_data @ new_rows))"
proof -
  let ?all = "existing_rows existing_data @ new_rows"
  obtain parsed warnings where p: "parse_dates P ?all = (parsed, warnings)"
    by (cases "parse_dates P ?all")
  then show ?thesis
    using parse_dates_log [of P ?all] by (simp add: merge_and_sort_data_def Let_def)
qed

lemma out_date_to_list: "out_date P (to_list r) = sort_date P r"
  by (simp add: out_date_def to_list_def sort_date_def)

lemma strip_Nil: "strip [] = []"
  by (simp add: strip_def)

lemma normal_row_cases:
  "normal_row [a] = [Text (strip a), Text [], Text [], Text [], Text []]"
  "normal_row [a, b] = [Text (strip a), Text (strip b), Text [], Text [], Text []]"
  "normal_row [a, b, c] = [Text (strip a), Text (strip b), Text c, Text [], Text []]"
  "normal_row [a, b, c, d] = [Text (strip a), Text (strip b), Text c, Text d, Text []]"
  "normal_row (a # b # c # d # e # rest) = [Text (strip a), Text (strip b), Text c, Text d, Text e]"
  by (simp_all add: normal_row_def five_cells_def strip_Nil numeral_eq_Suc)

lemma existing_row_normal:
  assumes "has_date r"
  shows "to_list (\<lparr>date = strip (r ! 0),
         name = (if 1 < length r then strip (r ! 1) else []),
         amount = Text (if 2 < length r then r ! 2 else []),
         category = (if 3 < length r then r ! 3 else []),
         notes' = (if 4 < length r then r ! 4 else []),
         date_obj = None\<rparr> :: 'a row) = normal_row r"
proof -
  consider a where "r = [a]" | a b where "r = [a, b]" | a b c where "r = [a, b, c]"
    | a b c d where "r = [a, b, c, d]" | a b c d e rest where "r = a # b # c # d # e # rest"
    using assms by (auto simp: has_date_def neq_Nil_conv) (metis list.exhaust)
  then show ?thesis
    by cases (simp_all add: normal_row_cases to_list_def)
qed

lemma existing_rows_normal:
  "map to_list (existing_rows existing_data) = map normal_row (filter has_date existing_data)"
proof (induction existing_data)
  case Nil
  then show ?case by simp
next
  case (Cons r rest)
  show ?case
  proof (cases "has_date r")
    case True
    then have "1 \<le> length r \<and> r ! 0 \<noteq> []"
      by (cases r) (auto simp: has_date_def)
    with True Cons existing_row_normal [OF True] show ?thesis by simp
  next
    case False
    then have "\<not> (1 \<le> length r \<and> r ! 0 \<noteq> [])"
      by (cases r) (auto simp: has_date_def)
    with False Cons show ?thesis by simp
  qed
qed


lemma merge_mset:
  "mset (fst (merge_and_sort_data P existing_data new_rows)) =
     mset (map normal_row (filter has_date existing_data)) + mset (map to_list new_rows)"
proof -
  have "mset (fst (merge_and_sort_data P existing_data new_rows)) =
      mset (map to_list (existing_rows existing_data @ new_rows))"
    by (simp only: merge_rows mset_map mset_sort)
  then show ?thesis
    by (simp add: existing_rows_normal [symmetric])
qed

lemma out_date_map: "map (out_date P) (map to_list xs) = map (sort_date P) xs"
  by (simp add: out_date_to_list comp_def)

lemma out_date_filter:
  "filter (\<lambda>c. out_date P c = k) (map to_list xs) =
     map to_list (filter (\<lambda>r. sort_date P r = k) xs)"
  by (simp add: filter_map comp_def out_date_to_list)

lemma merge_sorted:
  "sorted (map (out_date P) (fst (merge_and_sort_data P existing_data new_rows)))"
  by (simp only: merge_rows out_date_map sorted_sort_key)

lemma merge_stable:
  "filter (\<lambda>c. out_date P c = k) (fst (merge_and_sort_data P existing_data new_rows)) =
     filter (\<lambda>c. out_date P c = k) (map to_list (existing_rows existing_data)) @
     filter (\<lambda>c. out_date P c = k) (map to_list new_rows)"
  by (simp only: merge_rows out_date_filter sort_key_stable filter_append map_append)

text \<open>
  C4. The rows returned by the merge are in ascending order of their parsed dates, and the
  sort is stable: for every date, the returned rows with that parsed date are the existing
  rows with that date, in their input order, followed by the new rows with that date, in
  their input order.
\<close>

theorem merge_sorted_stable:
  "sorted (map (out_date P) (fst (merge_and_sort_data P existing_data new_rows))) \<and>
   (\<forall>k. filter (\<lambda>c. out_date P c = k) (fst (merge_and_sort_data P existing_data new_rows)) =
        filter (\<lambda>c. out_date P c = k) (map to_list (existing_rows existing_data)) @
        filter (\<lambda>c. out_date P c = k) (map to_list new_rows))"
  using merge_sorted [of P existing_data new_rows] merge_stable [of P _ existing_data new_rows]
  by blast

lemmas text_eval = strip_def isspace_def

lemmas merge_eval = merge_rows merge_log sort_date_def parsed_date_def example_strptime_def
  to_list_def datetime_min_def text_eval

lemma first_text_to_list: "first_text (to_list r) = date r"
  by (simp add: first_text_def to_list_def)

lemma out_date_first_text:
  "c \<in> set (fst (merge_and_sort_data P existing_data new_rows)) \<Longrightarrow>
     out_date P c = parsed_date P (first_text c)"
  by (auto simp: merge_rows out_date_to_list first_text_to_list sort_date_def)

text \<open>
  C7 (amended). A row whose date does not parse is kept in the output, is logged with one
  warning and nothing else, is sorted by the minimum date, and so comes before every row
  whose parsed date is later than the minimum date. A row that parses to the minimum date
  itself ties with it and keeps its input position relative to it.
\<close>

theorem unparseable_dates_sentinel:
  "mset (fst (merge_and_sort_data P existing_data new_rows)) =
     mset (map to_list (existing_rows existing_data @ new_rows)) \<and>
   snd (merge_and_sort_data P existing_data new_rows) =
     map (\<lambda>r. (WARNING, InvalidDateFormat (date r)))
       (filter (\<lambda>r. P (date r) = None) (existing_rows existing_data @ new_rows)) \<and>
   (\<forall>c \<in> set (fst (merge_and_sort_data P existing_data new_rows)).
      P (first_text c) = None \<longrightarrow> out_date P c = datetime_min) \<and>
   (\<forall>i j. i < length (fst (merge_and_sort_data P existing_data new_rows)) \<and>
          j < length (fst (merge_and_sort_data P existing_data new_rows)) \<and>
          P (first_text (fst (merge_and_sort_data P existing_data new_rows) ! i)) = None \<and>
          datetime_min < out_date P (fst (merge_and_sort_data P existing_data new_rows) ! j)
          \<longrightarrow> i < j)"
proof -
  let ?out = "fst (merge_and_sort_data P existing_data new_rows)"
  have kept: "mset ?out = mset (map to_list (existing_rows existing_data @ new_rows))"
    by (simp only: merge_rows mset_map mset_sort)
  have sentinel: "out_date P c = datetime_min" if "c \<in> set ?out" "P (first_text c) = None" for c
    using that out_date_first_text [of c P existing_data new_rows]
    by (simp add: parsed_date_def)
  have srt: "sorted (map (out_date P) ?out)"
    by (rule merge_sorted)
  have first: "i < j" if "i < length ?out" "j < length ?out"
    "P (first_text (?out ! i)) = None" "datetime_min < out_date P (?out ! j)" for i j
  proof (rule ccontr)
    assume "\<not> i < j"
    then have "j \<le> i" by simp
    with srt that(1) have "map (out_date P) ?out ! j \<le> map (out_date P) ?out ! i"
      by (simp add: sorted_nth_mono del: nth_map)
    with that have "out_date P (?out ! j) \<le> out_date P (?out ! i)" by simp
    moreover have "out_date P (?out ! i) = datetime_min"
      using sentinel that(1,3) by simp
    ultimately show False using that(4) by simp
  qed
  from kept merge_log [of P existing_data new_rows] sentinel first show ?thesis by blast
qed

theorem unparseable_dates_sentinel_witness:
  "example_strptime ''not-a-date'' = None \<and>
   datetime_min < parsed_date example_strptime ''2024-01-05'' \<and>
   fst (merge_and_sort_data example_strptime
       [[''2024-01-05'', ''Coffee Shop'', ''$4.50''], [''not-a-date'', ''B'']] ([] :: rat row list)) =
     [[Text ''not-a-date'', Text ''B'', Text [], Text [], Text []],
      [Text ''2024-01-05'', Text ''Coffee Shop'', Text ''$4.50'', Text [], Text []]] \<and>
   snd (merge_and_sort_data example_strptime
       [[''2024-01-05'', ''Coffee Shop'', ''$4.50''], [''not-a-date'', ''B'']] ([] :: rat row list)) =
     [(WARNING, InvalidDateFormat ''not-a-date'')] \<and> (0 :: nat) < 1"
proof -
  let ?ex = "[[''2024-01-05'', ''Coffee Shop'', ''$4.50''], [''not-a-date'', ''B'']]"
  let ?out = "fst (merge_and_sort_data example_strptime ?ex ([] :: rat row list))"
  note t = unparseable_dates_sentinel [of example_strptime ?ex "[] :: rat row list"]
  have ev: "?out = [[Text ''not-a-date'', Text ''B'', Text [], Text [], Text []],
      [Text ''2024-01-05'', Text ''Coffee Shop'', Text ''$4.50'', Text [], Text []]]"
    by (simp add: merge_eval)
  have p: "example_strptime ''not-a-date'' = None"
    by (simp add: example_strptime_def)
  have d: "datetime_min < parsed_date example_strptime ''2024-01-05''"
    by (simp add: parsed_date_def example_strptime_def datetime_min_def)
  have lg: "snd (merge_and_sort_data example_strptime ?ex ([] :: rat row list)) =
     [(WARNING, InvalidDateFormat ''not-a-date'')]"
    by (simp only: t [THEN conjunct2, THEN conjunct1])
       (simp add: text_eval example_strptime_def)
  have h: "0 < length ?out \<and> 1 < length ?out \<and>
      example_strptime (first_text (?out ! 0)) = None \<and>
      datetime_min < out_date example_strptime (?out ! 1)"
    by (simp only: ev) (simp add: first_text_def out_date_def p d)
  have "(0 :: nat) < 1"
    using t [THEN conjunct2, THEN conjunct2, THEN conjunct2, rule_format, OF h] .
  with ev p d lg show ?thesis by blast
qed

text \<open>
  C7 as stated fails: with the date format \<^verbatim>\<open>%Y-%m-%d\<close> the text \<^verbatim>\<open>0001-01-01\<close> parses to
  the minimum date, ties with the sentinel, and the stable sort leaves the row that does
  not parse after it.
\<close>

theorem sentinel_tie_counterexample:
  "example_strptime ''0001-01-01'' = Some datetime_min \<and>
   example_strptime ''not-a-date'' = None \<and>
   fst (merge_and_sort_data example_strptime
          [[''0001-01-01'', ''A''], [''not-a-date'', ''B'']] ([] :: rat row list)) =
     [[Text ''0001-01-01'', Text ''A'', Text [], Text [], Text []],
      [Text ''not-a-date'', Text ''B'', Text [], Text [], Text []]]"
  by (simp add: merge_eval)

lemma existing_rows_dates:
  "map (sort_date P) (existing_rows existing_data :: 'f row list) =
     map (\<lambda>r. parsed_date P (strip (hd r))) (filter has_date existing_data)"
proof (induction existing_data)
  case Nil
  then show ?case by simp
next
  case (Cons r rest)
  show ?case
  proof (cases r)
    case Nil
    with Cons show ?thesis by (simp add: has_date_def)
  next
    case (Cons a as)
    with Cons.IH show ?thesis by (simp add: has_date_def sort_date_def)
  qed
qed

lemma normal_row_id:
  assumes "length r = 5" and "strip (r ! 0) = r ! 0" and "strip (r ! 1) = r ! 1"
  shows "normal_row r = map Text r"
proof -
  obtain a b c d e where r: "r = [a, b, c, d, e]"
    using assms(1) by (auto simp: length_Suc_conv numeral_eq_Suc)
  with assms show ?thesis by (simp add: normal_row_cases)
qed

text \<open>
  C8 (amended). When the parsed dates of the existing rows that have a date are in
  ascending order, merging with no new rows returns those rows in their original order,
  each cut or padded to five cells with its date and name trimmed; rows without a date are
  dropped. When every existing row already has five cells, a date, and a trimmed date and
  name, the merge returns the existing rows unchanged.
\<close>

theorem merge_no_new_rows:
  assumes "sorted (map (\<lambda>r. parsed_date P (strip (hd r))) (filter has_date existing_data))"
  shows "fst (merge_and_sort_data P existing_data ([] :: 'f row list)) =
           map normal_row (filter has_date existing_data) \<and>
         ((\<forall>r \<in> set existing_data. length r = 5 \<and> r ! 0 \<noteq> [] \<and>
              strip (r ! 0) = r ! 0 \<and> strip (r ! 1) = r ! 1) \<longrightarrow>
          fst (merge_and_sort_data P existing_data ([] :: 'f row list)) =
            map (map Text) existing_data)"
proof -
  have srt: "sorted (map (sort_date P) (existing_rows existing_data :: 'f row list))"
    using assms by (simp only: existing_rows_dates)
  have main: "fst (merge_and_sort_data P existing_data ([] :: 'f row list)) =
      map normal_row (filter has_date existing_data)"
    using sort_key_id_if_sorted [OF srt]
    by (simp add: merge_rows existing_rows_normal)
  have "map (normal_row :: string list \<Rightarrow> 'f cell list) (filter has_date existing_data) =
      map (map Text) existing_data"
    if "\<forall>r \<in> set existing_data. length r = 5 \<and> r ! 0 \<noteq> [] \<and>
              strip (r ! 0) = r ! 0 \<and> strip (r ! 1) = r ! 1"
  proof -
    have "has_date r" if "r \<in> set existing_data" for r
    proof -
      from that \<open>\<forall>r \<in> set existing_data. _\<close>
      have "length r = 5" and "r ! 0 \<noteq> []" by auto
      then have "r \<noteq> []" by auto
      with \<open>r ! 0 \<noteq> []\<close> show ?thesis by (simp add: has_date_def hd_conv_nth)
    qed
    then have "filter has_date existing_data = existing_data"
      by (simp add: filter_id_conv)
    moreover have "map (normal_row :: string list \<Rightarrow> 'f cell list) existing_data =
        map (map Text) existing_data"
      using that by (simp add: normal_row_id)
    ultimately show ?thesis by simp
  qed
  with main show ?thesis by auto
qed


theorem merge_no_new_rows_witness:
  "fst (merge_and_sort_data example_strptime
     [[''2024-01-05'', ''Coffee Shop'', ''$4.50'', [], []],
      [''2024-02-01'', ''Rent'', ''$1200.00'', [], ''paid'']] ([] :: rat row list)) =
   [[Text ''2024-01-05'', Text ''Coffee Shop'', Text ''$4.50'', Text [], Text []],
    [Text ''2024-02-01'', Text ''Rent'', Text ''$1200.00'', Text [], Text ''paid'']]"
proof -
  let ?ex = "[[''2024-01-05'', ''Coffee Shop'', ''$4.50'', [], []],
      [''2024-02-01'', ''Rent'', ''$1200.00'', [], ''paid'']]"
  have s: "sorted (map (\<lambda>r. parsed_date example_strptime (strip (hd r))) (filter has_date ?ex))"
    by (simp add: has_date_def parsed_date_def example_strptime_def text_eval)
  have w: "\<forall>r \<in> set ?ex. length r = 5 \<and> r ! 0 \<noteq> [] \<and>
      strip (r ! 0) = r ! 0 \<and> strip (r ! 1) = r ! 1"
    by (simp add: text_eval)
  show ?thesis
    using merge_no_new_rows [where 'f = rat, OF s, THEN conjunct2, THEN mp, OF w] by simp
qed

text \<open>
  C8 as stated fails on a sorted sheet whose row has fewer than five cells, as the rows
  read from a sheet have when their last cells are empty: the merge pads the row.
\<close>

theorem merge_no_new_rows_counterexample:
  "sorted (map (\<lambda>r. parsed_date example_strptime (strip (hd r)))
     (filter has_date [[''2024-01-05'', ''Coffee Shop'', ''$4.50'']])) \<and>
   fst (merge_and_sort_data example_strptime
     [[''2024-01-05'', ''Coffee Shop'', ''$4.50'']] ([] :: rat row list)) =
     [[Text ''2024-01-05'', Text ''Coffee Shop'', Text ''$4.50'', Text [], Text []]] \<and>
   fst (merge_and_sort_data example_strptime
     [[''2024-01-05'', ''Coffee Shop'', ''$4.50'']] ([] :: rat row list)) \<noteq>
     map (map Text) [[''2024-01-05'', ''Coffee Shop'', ''$4.50'']]"
  by (simp add: merge_eval has_date_def)

lemma normal_row_length: "length (normal_row r) = 5"
  by (simp add: normal_row_def five_cells_def)

lemma to_list_length: "length (to_list r) = 5"
  by (simp add: to_list_def)

lemma merge_set:
  "set (fst (merge_and_sort_data P existing_data new_rows)) =
     normal_row ` set (filter has_date existing_data) \<union> to_list ` set new_rows"
proof -
  have "set (fst (merge_and_sort_data P existing_data new_rows)) =
      set (map to_list (existing_rows existing_data)) \<union> to_list ` set new_rows"
    by (simp add: merge_rows image_Un)
  then show ?thesis by (simp only: existing_rows_normal set_map)
qed

lemma queue_new_rows:
  "fst (queue_new fl k data_rows full_df cands) =
     map (\<lambda>r. new_row (t_date r) (t_name r) (view_amount k r))
       (filter (\<lambda>r. \<not> row_exists fl (t_date r) (t_name r) (view_amount k r) data_rows full_df)
          cands)"
  by (induction cands) (auto simp: Let_def split: prod.splits)

text \<open>
  C9. Every row returned by the merge has five cells. The rows that come from the sheet
  are the existing rows with a date, each cut after its fifth cell or padded with empty
  cells to five (and its date and name trimmed); the other rows are the new rows. Every
  new row that the script queues has an empty category and empty notes, in the row and in
  the cells written for it.
\<close>

theorem merge_rows_five_cells:
  "(\<forall>c \<in> set (fst (merge_and_sort_data P existing_data new_rows)). length c = 5) \<and>
   mset (fst (merge_and_sort_data P existing_data new_rows)) =
     mset (map normal_row (filter has_date existing_data)) + mset (map to_list new_rows) \<and>
   (\<forall>r \<in> set (fst (queue_new fl k data_rows full_df cands)).
      category r = [] \<and> notes' r = [] \<and> drop 3 (to_list r) = [Text [], Text []])"
proof -
  have "length c = 5" if "c \<in> set (fst (merge_and_sort_data P existing_data new_rows))" for c
    using that by (auto simp: merge_set normal_row_length to_list_length)
  moreover have "category r = [] \<and> notes' r = [] \<and> drop 3 (to_list r) = [Text [], Text []]"
    if "r \<in> set (fst (queue_new fl k data_rows full_df cands))" for r
    using that by (auto simp: queue_new_rows new_row_def to_list_def)
  ultimately show ?thesis
    using merge_mset [of P existing_data new_rows] by blast
qed


theorem merge_rows_five_cells_witness:
  "fst (merge_and_sort_data example_strptime
      [[''2024-01-05'', ''Coffee Shop''],
       [''2024-02-01'', ''Rent'', ''$1200.00'', ''home'', ''paid'', ''extra'']]
      [new_row ''2024-03-01'' ''ACME'' (50 :: rat)]) =
     [[Text ''2024-01-05'', Text ''Coffee Shop'', Text [], Text [], Text []],
      [Text ''2024-02-01'', Text ''Rent'', Text ''$1200.00'', Text ''home'', Text ''paid''],
      [Text ''2024-03-01'', Text ''ACME'', Number 50, Text [], Text []]] \<and>
   length [Text ''2024-01-05'', Text ''Coffee Shop'', Text [], Text [], Text [] :: rat cell] = 5 \<and>
   fst (queue_new example_floats Expense [] [acme1] [acme1]) =
     [new_row ''2024-03-01'' ''ACME'' 50] \<and>
   category (new_row ''2024-03-01'' ''ACME'' (50 :: rat)) = []"
proof -
  let ?ex = "[[''2024-01-05'', ''Coffee Shop''],
       [''2024-02-01'', ''Rent'', ''$1200.00'', ''home'', ''paid'', ''extra'']]"
  let ?new = "[new_row ''2024-03-01'' ''ACME'' (50 :: rat)]"
  let ?out = "fst (merge_and_sort_data example_strptime ?ex ?new)"
  note t = merge_rows_five_cells [of example_strptime ?ex ?new example_floats Expense
      "[]" "[acme1]" "[acme1]"]
  have ev: "?out =
     [[Text ''2024-01-05'', Text ''Coffee Shop'', Text [], Text [], Text []],
      [Text ''2024-02-01'', Text ''Rent'', Text ''$1200.00'', Text ''home'', Text ''paid''],
      [Text ''2024-03-01'', Text ''ACME'', Number 50, Text [], Text []]]"
    by (simp add: merge_eval new_row_def)
  have m: "[Text ''2024-01-05'', Text ''Coffee Shop'', Text [], Text [], Text []] \<in> set ?out"
    by (simp only: ev) simp
  have l: "length [Text ''2024-01-05'', Text ''Coffee Shop'', Text [], Text [], Text [] :: rat cell] = 5"
    using t [THEN conjunct1, THEN bspec, OF m] .
  have q: "fst (queue_new example_floats Expense [] [acme1] [acme1]) =
     [new_row ''2024-03-01'' ''ACME'' 50]"
    by (simp add: row_exists_def acme1_def view_amount_def csv_amount_def example_floats_def Let_def)
  have qm: "new_row ''2024-03-01'' ''ACME'' 50 \<in>
      set (fst (queue_new example_floats Expense [] [acme1] [acme1]))"
    by (simp only: q) simp
  have c: "category (new_row ''2024-03-01'' ''ACME'' (50 :: rat)) = []"
    using t [THEN conjunct2, THEN conjunct2, THEN bspec, OF qm] by simp
  from ev l q c show ?thesis by blast
qed

lemma existing_rows_filter:
  "existing_rows (filter has_date existing_data) = (existing_rows existing_data :: 'f row list)"
proof (induction existing_data)
  case Nil
  then show ?case by simp
next
  case (Cons r rest)
  show ?case
  proof (cases r)
    case Nil
    with Cons show ?thesis by (simp add: has_date_def)
  next
    case (Cons a as)
    with Cons.IH show ?thesis by (simp add: has_date_def)
  qed
qed

lemma normal_row_fields:
  assumes "has_date r"
  shows "normal_row r ! 0 = Text (strip (r ! 0)) \<and>
         (1 < length r \<longrightarrow> normal_row r ! 1 = Text (strip (r ! 1))) \<and>
         (2 < length r \<longrightarrow> normal_row r ! 2 = Text (r ! 2)) \<and>
         (3 < length r \<longrightarrow> normal_row r ! 3 = Text (r ! 3)) \<and>
         (4 < length r \<longrightarrow> normal_row r ! 4 = Text (r ! 4))"
proof -
  consider a where "r = [a]" | a b where "r = [a, b]" | a b c where "r = [a, b, c]"
    | a b c d where "r = [a, b, c, d]" | a b c d e rest where "r = a # b # c # d # e # rest"
    using assms by (auto simp: has_date_def neq_Nil_conv) (metis list.exhaust)
  then show ?thesis
    by cases (simp_all add: normal_row_cases numeral_eq_Suc)
qed

text \<open>
  C10. The merge drops the existing rows whose first cell is absent or empty: its result
  is the result on the rows that have a date, and has one row for each of them and one
  for each new row. For every existing row with a date the result holds a row whose date
  and name are those of the row with leading and trailing whitespace removed, and whose
  amount, category and notes are the third, fourth and fifth cells of the row, unchanged.
\<close>

theorem existing_rows_passed_through:
  "length (fst (merge_and_sort_data P existing_data new_rows)) =
     length (filter has_date existing_data) + length new_rows \<and>
   fst (merge_and_sort_data P existing_data new_rows) =
     fst (merge_and_sort_data P (filter has_date existing_data) new_rows) \<and>
   (\<forall>r \<in> set existing_data. has_date r \<longrightarrow>
      (\<exists>c \<in> set (fst (merge_and_sort_data P existing_data new_rows)).
         c ! 0 = Text (strip (r ! 0)) \<and>
         (1 < length r \<longrightarrow> c ! 1 = Text (strip (r ! 1))) \<and>
         (2 < length r \<longrightarrow> c ! 2 = Text (r ! 2)) \<and>
         (3 < length r \<longrightarrow> c ! 3 = Text (r ! 3)) \<and>
         (4 < length r \<longrightarrow> c ! 4 = Text (r ! 4))))"
proof -
  have len: "length (fst (merge_and_sort_data P existing_data new_rows)) =
     length (filter has_date existing_data) + length new_rows"
  proof -
    have "length (existing_rows existing_data :: 'a row list) =
        length (filter has_date existing_data)"
      using arg_cong [OF existing_rows_normal [of existing_data], of length]
      by (simp only: length_map)
    then show ?thesis by (simp add: merge_rows)
  qed
  have drop: "fst (merge_and_sort_data P existing_data new_rows) =
     fst (merge_and_sort_data P (filter has_date existing_data) new_rows)"
    by (simp only: merge_rows existing_rows_filter)
  have fields: "\<exists>c \<in> set (fst (merge_and_sort_data P existing_data new_rows)).
         c ! 0 = Text (strip (r ! 0)) \<and>
         (1 < length r \<longrightarrow> c ! 1 = Text (strip (r ! 1))) \<and>
         (2 < length r \<longrightarrow> c ! 2 = Text (r ! 2)) \<and>
         (3 < length r \<longrightarrow> c ! 3 = Text (r ! 3)) \<and>
         (4 < length r \<longrightarrow> c ! 4 = Text (r ! 4))"
    if "r \<in> set existing_data" "has_date r" for r
  proof -
    from that have "normal_row r \<in> set (fst (merge_and_sort_data P existing_data new_rows))"
      by (simp add: merge_set)
    with normal_row_fields [OF that(2)] show ?thesis by blast
  qed
  from len drop fields show ?thesis by blast
qed


theorem existing_rows_passed_through_witness:
  "has_date [''  2024-01-05 '', '' Coffee Shop '', '' $4.50 '', '' food '', '' note ''] \<and>
   length (fst (merge_and_sort_data example_strptime
      [[''  2024-01-05 '', '' Coffee Shop '', '' $4.50 '', '' food '', '' note ''], [],
       [[], ''no date'']] ([] :: rat row list))) = 1 \<and>
   (\<exists>c \<in> set (fst (merge_and_sort_data example_strptime
      [[''  2024-01-05 '', '' Coffee Shop '', '' $4.50 '', '' food '', '' note ''], [],
       [[], ''no date'']] ([] :: rat row list))).
      c ! 0 = Text ''2024-01-05'' \<and> c ! 1 = Text ''Coffee Shop'' \<and>
      c ! 2 = Text '' $4.50 '' \<and> c ! 3 = Text '' food '' \<and> c ! 4 = Text '' note '')"
proof -
  let ?r = "[''  2024-01-05 '', '' Coffee Shop '', '' $4.50 '', '' food '', '' note '']"
  let ?ex = "[?r, [], [[], ''no date'']]"
  let ?out = "fst (merge_and_sort_data example_strptime ?ex ([] :: rat row list))"
  note t = existing_rows_passed_through [of example_strptime ?ex "[] :: rat row list"]
  have h: "has_date ?r"
    by (simp add: has_date_def)
  have mem: "?r \<in> set ?ex"
    by simp
  have len: "length ?out = 1"
    using t [THEN conjunct1] by (simp add: has_date_def)
  from t [THEN conjunct2, THEN conjunct2, THEN bspec, OF mem, THEN mp, OF h]
  obtain c where c: "c \<in> set ?out" "c ! 0 = Text (strip (?r ! 0))"
    "c ! 1 = Text (strip (?r ! 1))" "c ! 2 = Text (?r ! 2)" "c ! 3 = Text (?r ! 3)"
    "c ! 4 = Text (?r ! 4)"
    by auto
  have s0: "strip (?r ! 0) = ''2024-01-05''" and s1: "strip (?r ! 1) = ''Coffee Shop''"
    by (simp_all add: text_eval)
  from c s0 s1 have "c ! 0 = Text ''2024-01-05'' \<and> c ! 1 = Text ''Coffee Shop'' \<and>
      c ! 2 = Text '' $4.50 '' \<and> c ! 3 = Text '' food '' \<and> c ! 4 = Text '' note ''"
    by simp
  with c(1) h len show ?thesis by blast
qed

section \<open>Properties of processing one ledger\<close>

lemma process_view_no_new:
  assumes "fst (queue_new fl k data_rows full_df (view fl k full_df)) = []"
  shows "fst (process_view fl P k data_rows full_df) = []"
proof -
  obtain rows lg where q: "queue_new fl k data_rows full_df (view fl k full_df) = (rows, lg)"
    by (cases "queue_new fl k data_rows full_df (view fl k full_df)")
  with assms have "rows = []" by simp
  with q show ?thesis by (simp add: process_view_def)
qed

text \<open>
  C5. For either ledger, when \<open>row_exists\<close> is true of every record of the view, so that
  no record is queued, the script makes no call on the worksheet: no clear, no update and
  no format. A single candidate that duplicates a row of the sheet is such a case.
\<close>

theorem no_accepted_no_write:
  assumes "\<forall>c \<in> set (view fl k full_df).
     row_exists fl (t_date c) (t_name c) (view_amount k c) data_rows full_df"
  shows "fst (process_view fl P k data_rows full_df) = []"
proof -
  have "filter (\<lambda>r. \<not> row_exists fl (t_date r) (t_name r) (view_amount k r) data_rows full_df)
      (view fl k full_df) = []"
    using assms by (simp add: filter_empty_conv)
  then have "fst (queue_new fl k data_rows full_df (view fl k full_df)) = []"
    by (simp add: queue_new_rows)
  then show ?thesis by (rule process_view_no_new)
qed

theorem no_accepted_no_write_witness:
  "view example_floats Expense [coffee] = [coffee] \<and>
   row_exists example_floats (t_date coffee) (t_name coffee) (view_amount Expense coffee)
     [[''2024-01-05'', ''Coffee Shop'', ''$4.50'', [], []]] [coffee] \<and>
   fst (process_view example_floats example_strptime Expense
     [[''2024-01-05'', ''Coffee Shop'', ''$4.50'', [], []]] [coffee]) = []"
proof -
  let ?data = "[[''2024-01-05'', ''Coffee Shop'', ''$4.50'', [], []]]"
  have v: "view example_floats Expense [coffee] = [coffee]"
    by (simp add: view_def coffee_def example_floats_def)
  have a: "float_of example_floats (amount_text ''$4.50'') = Some (9 / 2)"
    by (simp add: example_floats_def amount_text_def remove_char_def text_eval)
  have r: "row_exists example_floats (t_date coffee) (t_name coffee) (view_amount Expense coffee)
     ?data [coffee]"
    using a by (simp add: row_exists_def coffee_def view_amount_def Let_def example_floats_def)
  have h: "\<forall>c \<in> set (view example_floats Expense [coffee]).
     row_exists example_floats (t_date c) (t_name c) (view_amount Expense c) ?data [coffee]"
    using r by (simp only: v) simp
  from no_accepted_no_write [OF h, of example_strptime] v r show ?thesis by blast
qed

end
